theory Spec2Isabelle
  imports Main "HOL-Library.Sublist"
begin

section \<open>Errors\<close>

text \<open>
  A Go \<^verbatim>\<open>error\<close> value. \<^verbatim>\<open>serverError\<close> is the string type of server.go; the two other
  constructors stand for errors of other packages: one with a message only, one that
  also wraps a cause (what \<^verbatim>\<open>Unwrap\<close> returns). A nil error is \<open>None\<close> of
  \<open>goerr option\<close>.
\<close>

datatype goerr = serverError string | plainError string | wrapError string goerr

fun Error :: "goerr \<Rightarrow> string" where
  "Error (serverError s) = s"
| "Error (plainError s) = s"
| "Error (wrapError s _) = s"

text \<open>\<^verbatim>\<open>errors.Is(err, target)\<close>: equality with the target along the chain of causes.\<close>

fun errors_Is_chain :: "goerr \<Rightarrow> goerr \<Rightarrow> bool" where
  "errors_Is_chain (wrapError s e) target = (wrapError s e = target \<or> errors_Is_chain e target)"
| "errors_Is_chain e target = (e = target)"

definition errors_Is :: "goerr option \<Rightarrow> goerr \<Rightarrow> bool" where
  "errors_Is err target = (case err of None \<Rightarrow> False | Some e \<Rightarrow> errors_Is_chain e target)"

definition errInvalidTopicValue :: goerr where
  "errInvalidTopicValue = serverError ''invalid topic value''"

definition errReadBody :: goerr where
  "errReadBody = serverError ''error reading the request body''"

definition errPublish :: goerr where
  "errPublish = serverError ''error publishing to broker''"

definition errNextValue :: goerr where
  "errNextValue = serverError ''error getting next value for consumer''"

definition errAck :: goerr where
  "errAck = serverError ''error ACKing message''"

definition errNack :: goerr where
  "errNack = serverError ''error NACKing message''"

definition errDecodingCmd :: goerr where
  "errDecodingCmd = serverError ''error decoding command''"

definition errRequestCancelled :: goerr where
  "errRequestCancelled = serverError ''request context cancelled''"

section \<open>The broker\<close>

type_synonym value_bytes = string

text \<open>
  Modelled from the spec: the declaration of \<^verbatim>\<open>eventType\<close> is not among the sources; the
  broker only names \<^verbatim>\<open>eventTypePublish\<close>. Any other event is \<open>eventTypeOther\<close>.
\<close>

datatype eventType = eventTypePublish | eventTypeOther nat

subsection \<open>Channels\<close>

text \<open>
  A Go channel as its sender sees it: the capacity given to \<^verbatim>\<open>make\<close>, the buffered
  values, and the number of receivers blocked on it.
\<close>

record chan =
  chan_cap :: nat
  chan_buf :: "eventType list"
  chan_recvq :: nat

definition make_chan :: "nat \<Rightarrow> chan" where
  "make_chan n = \<lparr>chan_cap = n, chan_buf = [], chan_recvq = 0\<rparr>"

text \<open>
  \<^verbatim>\<open>select { case c <- ev: ...; default: }\<close>: the send is taken when a receiver is blocked
  on the channel (the value is handed to it and it is woken) or when the buffer has
  room; otherwise the default branch runs and the channel is as before.
\<close>

definition try_send :: "eventType \<Rightarrow> chan \<Rightarrow> bool \<times> chan" where
  "try_send ev ch =
     (if 0 < chan_recvq ch then (True, ch\<lparr>chan_recvq := chan_recvq ch - 1\<rparr>)
      else if length (chan_buf ch) < chan_cap ch then (True, ch\<lparr>chan_buf := chan_buf ch @ [ev]\<rparr>)
      else (False, ch))"

text \<open>
  What the receiving side can do to a channel: a receiver arrives (it takes a buffered
  value if there is one, otherwise it blocks), or a blocked receiver gives up (its
  \<^verbatim>\<open>select\<close> took another branch).
\<close>

datatype chan_op = TrySend eventType | RecvArrive | RecvLeave

fun chan_step :: "chan \<Rightarrow> chan_op \<Rightarrow> chan" where
  "chan_step ch (TrySend ev) = snd (try_send ev ch)"
| "chan_step ch RecvArrive =
     (case chan_buf ch of
        [] \<Rightarrow> ch\<lparr>chan_recvq := Suc (chan_recvq ch)\<rparr>
      | _ # rest \<Rightarrow> ch\<lparr>chan_buf := rest\<rparr>)"
| "chan_step ch RecvLeave = ch\<lparr>chan_recvq := chan_recvq ch - 1\<rparr>"

definition chan_run :: "chan_op list \<Rightarrow> chan \<Rightarrow> chan" where
  "chan_run ops ch = foldl chan_step ch ops"

subsection \<open>Consumers and the registry\<close>

text \<open>
  The consumer struct. Its channel is a reference: \<open>eventChan\<close> is the address of the
  channel in the broker state's \<open>chans\<close>, which the copy in the registry and the
  consumer returned to the caller share. The fields \<^verbatim>\<open>store\<close> and \<^verbatim>\<open>notifier\<close> point back
  to the broker's store and to the broker; the identifier of \<^verbatim>\<open>xid.New()\<close> is the serial
  number of the consumer.
\<close>

record consumer =
  cons_id :: nat
  topic :: string
  eventChan :: nat

text \<open>The \<^verbatim>\<open>storer\<close> interface, as far as the broker calls it.\<close>

record 's storer =
  Insert :: "'s \<Rightarrow> string \<Rightarrow> value_bytes \<Rightarrow> goerr option \<times> 's"
  Close :: "'s \<Rightarrow> goerr option \<times> 's"

text \<open>
  The broker: the store, the map from topic to consumers (indexing a Go map at a
  missing key gives the nil slice), and the channels made so far.
\<close>

record 's broker =
  store :: 's
  consumers :: "string \<Rightarrow> consumer list"
  chans :: "nat \<rightharpoonup> chan"
  next_chan :: nat
  next_id :: nat

definition newBroker :: "'s \<Rightarrow> 's broker" where
  "newBroker st = \<lparr>store = st, consumers = (\<lambda>_. []), chans = Map.empty, next_chan = 0, next_id = 0\<rparr>"

text \<open>A send on a nil channel is never ready.\<close>

definition send_on :: "(nat \<rightharpoonup> chan) \<Rightarrow> nat \<Rightarrow> eventType \<Rightarrow> bool \<times> (nat \<rightharpoonup> chan)" where
  "send_on h a ev =
     (case h a of
        None \<Rightarrow> (False, h)
      | Some ch \<Rightarrow> (case try_send ev ch of (ok, ch') \<Rightarrow> (ok, h(a \<mapsto> ch'))))"

text \<open>
  The loop of \<^verbatim>\<open>NotifyConsumer\<close>. Beside the channels it returns the sends it attempted,
  in order, each with the address of the channel and whether the send was taken.
\<close>

fun notify_loop :: "consumer list \<Rightarrow> eventType \<Rightarrow> (nat \<rightharpoonup> chan) \<Rightarrow> (nat \<times> bool) list \<times> (nat \<rightharpoonup> chan)" where
  "notify_loop [] ev h = ([], h)"
| "notify_loop (c # cs) ev h =
     (case send_on h (eventChan c) ev of
        (True, h') \<Rightarrow> ([(eventChan c, True)], h')
      | (False, h') \<Rightarrow>
          (case notify_loop cs ev h' of (tr, h'') \<Rightarrow> ((eventChan c, False) # tr, h'')))"

definition NotifyConsumer :: "'s broker \<Rightarrow> string \<Rightarrow> eventType \<Rightarrow> 's broker" where
  "NotifyConsumer b tp ev = b\<lparr>chans := snd (notify_loop (consumers b tp) ev (chans b))\<rparr>"

definition Publish :: "'s storer \<Rightarrow> 's broker \<Rightarrow> string \<Rightarrow> value_bytes \<Rightarrow> goerr option \<times> 's broker" where
  "Publish S b tp val =
     (case Insert S (store b) tp val of
        (Some err, st') \<Rightarrow> (Some err, b\<lparr>store := st'\<rparr>)
      | (None, st') \<Rightarrow> (None, NotifyConsumer (b\<lparr>store := st'\<rparr>) tp eventTypePublish))"

definition Subscribe :: "'s broker \<Rightarrow> string \<Rightarrow> consumer \<times> 's broker" where
  "Subscribe b tp =
     (let cons = \<lparr>cons_id = next_id b, topic = tp, eventChan = next_chan b\<rparr>
      in (cons,
          b\<lparr>consumers := (consumers b)(tp := consumers b tp @ [cons]),
            chans := (chans b)(next_chan b \<mapsto> make_chan 0),
            next_chan := Suc (next_chan b),
            next_id := Suc (next_id b)\<rparr>))"

definition Shutdown :: "'s storer \<Rightarrow> 's broker \<Rightarrow> goerr option \<times> 's broker" where
  "Shutdown S b = (case Close S (store b) of (err, st') \<Rightarrow> (err, b\<lparr>store := st'\<rparr>))"

text \<open>
  Sequences of calls of the broker's methods, interleaved with what consumers do to
  their channels (\<open>OpConsumer\<close>, on the channel at an address).
\<close>

datatype broker_op =
  OpPublish string value_bytes
| OpSubscribe string
| OpShutdown
| OpNotifyConsumer string eventType
| OpConsumer nat chan_op

fun broker_step :: "'s storer \<Rightarrow> 's broker \<Rightarrow> broker_op \<Rightarrow> 's broker" where
  "broker_step S b (OpPublish tp val) = snd (Publish S b tp val)"
| "broker_step S b (OpSubscribe tp) = snd (Subscribe b tp)"
| "broker_step S b OpShutdown = snd (Shutdown S b)"
| "broker_step S b (OpNotifyConsumer tp ev) = NotifyConsumer b tp ev"
| "broker_step S b (OpConsumer a cop) =
     (case chans b a of
        None \<Rightarrow> b
      | Some ch \<Rightarrow> b\<lparr>chans := (chans b)(a \<mapsto> chan_step ch cop)\<rparr>)"

definition broker_run :: "'s storer \<Rightarrow> broker_op list \<Rightarrow> 's broker \<Rightarrow> 's broker" where
  "broker_run S ops b = foldl (broker_step S) b ops"

subsection \<open>Predicates on channels\<close>

text \<open>The send on the consumer's channel would be taken.\<close>

definition accepts :: "(nat \<rightharpoonup> chan) \<Rightarrow> consumer \<Rightarrow> bool" where
  "accepts h c =
     (case h (eventChan c) of
        None \<Rightarrow> False
      | Some ch \<Rightarrow> 0 < chan_recvq ch \<or> length (chan_buf ch) < chan_cap ch)"

text \<open>A receiver is blocked on the consumer's channel.\<close>

definition awaiting :: "(nat \<rightharpoonup> chan) \<Rightarrow> consumer \<Rightarrow> bool" where
  "awaiting h c = (case h (eventChan c) of None \<Rightarrow> False | Some ch \<Rightarrow> 0 < chan_recvq ch)"

text \<open>Every channel is as \<^verbatim>\<open>make(chan eventType)\<close> makes it: no capacity, nothing buffered.\<close>

definition all_unbuffered :: "(nat \<rightharpoonup> chan) \<Rightarrow> bool" where
  "all_unbuffered h = (\<forall>a ch. h a = Some ch \<longrightarrow> chan_cap ch = 0 \<and> chan_buf ch = [])"

text \<open>The number of sends taken in a list of attempts.\<close>

definition taken :: "(nat \<times> bool) list \<Rightarrow> nat" where
  "taken tr = length (filter snd tr)"

text \<open>A store for examples: one list of payloads per topic; a topic named \<open>''bad''\<close> fails.\<close>

definition list_store :: "(string \<Rightarrow> value_bytes list) storer" where
  "list_store =
     \<lparr>Insert = (\<lambda>st tp val.
         if tp = ''bad'' then (Some (plainError ''insert failed''), st)
         else (None, st(tp := st tp @ [val]))),
      Close = (\<lambda>st. (None, st))\<rparr>"

definition empty_store :: "string \<Rightarrow> value_bytes list" where
  "empty_store = (\<lambda>_. [])"

text \<open>Three subscriptions to one topic; the second and the third consumer are waiting.\<close>

definition two_waiters :: "(string \<Rightarrow> value_bytes list) broker" where
  "two_waiters =
     broker_run list_store
       [OpSubscribe ''jobs'', OpSubscribe ''jobs'', OpSubscribe ''jobs'',
        OpConsumer 1 RecvArrive, OpConsumer 2 RecvArrive]
       (newBroker empty_store)"

text \<open>Two subscriptions to one topic; no consumer is waiting.\<close>

definition no_waiters :: "(string \<Rightarrow> value_bytes list) broker" where
  "no_waiters =
     broker_run list_store [OpSubscribe ''jobs'', OpSubscribe ''jobs''] (newBroker empty_store)"

section \<open>The HTTP handlers\<close>

definition topicVarKey :: string where
  "topicVarKey = ''topic''"

definition CmdInit :: string where
  "CmdInit = ''INIT''"

definition CmdAck :: string where
  "CmdAck = ''ACK''"

definition CmdNack :: string where
  "CmdNack = ''NACK''"

definition StatusCreated :: nat where
  "StatusCreated = 201"

definition StatusBadRequest :: nat where
  "StatusBadRequest = 400"

definition StatusInternalServerError :: nat where
  "StatusInternalServerError = 500"

text \<open>\<^verbatim>\<open>strings.Contains(s, substr)\<close>: \<open>substr\<close> starts at some position of \<open>s\<close>.\<close>

fun strings_Contains :: "string \<Rightarrow> string \<Rightarrow> bool" where
  "strings_Contains [] substr = (substr = [])"
| "strings_Contains (c # s) substr = (prefix substr (c # s) \<or> strings_Contains s substr)"

definition isDisconnect :: "goerr option \<Rightarrow> bool" where
  "isDisconnect err =
     (case err of
        None \<Rightarrow> False
      | Some e \<Rightarrow>
          strings_Contains (Error e) ''client disconnected'' \<or> strings_Contains (Error e) ''; CANCEL'')"

text \<open>
  What a handler does that can be seen from outside it: the status line, the frames
  written to the response, the calls of the consumer's methods, and the log lines (by
  their message, with the error when one is attached).
\<close>

datatype frame = MsgFrame value_bytes | ErrorFrame string

datatype event =
  WriteHeader nat
| Write frame
| CallNext
| CallAck
| CallNack
| Log string
| LogErr goerr string

text \<open>
  Modelled from the spec: \<^verbatim>\<open>respondError\<close> and \<^verbatim>\<open>respondMsg\<close> are not among the sources.
  Each writes one frame to the encoder: \<open>ErrorFrame m\<close> is the JSON error object with
  the one field \<^verbatim>\<open>error\<close> holding \<open>m\<close>, \<open>MsgFrame v\<close> is the message payload.
\<close>

definition respondError :: "string \<Rightarrow> event list" where
  "respondError errMsg = [Write (ErrorFrame errMsg)]"

definition respondMsg :: "value_bytes \<Rightarrow> event list" where
  "respondMsg msg = [Write (MsgFrame msg)]"

text \<open>
  The methods of the consumer that the handler calls; \<open>'c\<close> is the state they act on
  (the consumer with the store behind it). Their code is not among the sources, so the
  handler is modelled for any such methods.
\<close>

record 'c consumer_ops =
  Next :: "'c \<Rightarrow> (value_bytes \<times> goerr option) \<times> 'c"
  Ack :: "'c \<Rightarrow> goerr option \<times> 'c"
  Nack :: "'c \<Rightarrow> goerr option \<times> 'c"

datatype flow = Continue | Return

text \<open>
  One turn of the loop of \<^verbatim>\<open>subscribe\<close>, on one result \<open>(cmd, err)\<close> of
  \<^verbatim>\<open>dec.Decode(&cmd)\<close>.
\<close>

definition subscribe_body :: "'c consumer_ops \<Rightarrow> string \<times> goerr option \<Rightarrow> 'c \<Rightarrow> event list \<times> flow \<times> 'c" where
  "subscribe_body ops d c =
     (case d of (cmd, err) \<Rightarrow>
        if isDisconnect err then
          (case Nack ops c of
             (Some e, c') \<Rightarrow>
               ([Log ''client disconnected'', CallNack, LogErr e ''failed to nack''], Return, c')
           | (None, c') \<Rightarrow> ([Log ''client disconnected'', CallNack], Return, c'))
        else
          (case err of
             Some e \<Rightarrow>
               (LogErr e ''failed decoding command'' # respondError (Error errDecodingCmd), Return, c)
           | None \<Rightarrow>
               if cmd = CmdInit then
                 (case Next ops c of ((msg, nerr), c') \<Rightarrow>
                    if errors_Is nerr errRequestCancelled then
                      ([Log ''initialising consumer'', CallNext,
                        Log ''client disconnected while waiting for message''], Return, c')
                    else
                      (case nerr of
                         Some e \<Rightarrow>
                           ([Log ''initialising consumer'', CallNext,
                             LogErr e ''failed to get next value for topic'']
                              @ respondError (Error errNextValue), Return, c')
                       | None \<Rightarrow>
                           ([Log ''initialising consumer'', CallNext] @ respondMsg msg
                              @ [Log ''written message to client''], Continue, c')))
               else if cmd = CmdAck then
                 (case Ack ops c of
                    (Some e, c') \<Rightarrow>
                      ([Log ''ACKing message'', CallAck, LogErr e ''failed to ACK'']
                         @ respondError (Error errAck), Return, c')
                  | (None, c') \<Rightarrow>
                      (case Next ops c' of ((msg, nerr), c'') \<Rightarrow>
                         if errors_Is nerr errRequestCancelled then
                           ([Log ''ACKing message'', CallAck, CallNext,
                             Log ''client disconnected while waiting for message''], Return, c'')
                         else
                           (case nerr of
                              Some e \<Rightarrow>
                                ([Log ''ACKing message'', CallAck, CallNext,
                                  LogErr e ''failed to get next value for topic'']
                                   @ respondError (Error errNextValue), Return, c'')
                            | None \<Rightarrow>
                                ([Log ''ACKing message'', CallAck, CallNext] @ respondMsg msg
                                   @ [Log ''written message to client''], Continue, c''))))
               else if cmd = CmdNack then
                 (case Nack ops c of
                    (Some e, c') \<Rightarrow>
                      ([Log ''NACKing message'', CallNack, LogErr e ''failed to NACK'']
                         @ respondError (Error errNack), Return, c')
                  | (None, c') \<Rightarrow>
                      (case Next ops c' of ((msg, nerr), c'') \<Rightarrow>
                         if errors_Is nerr errRequestCancelled then
                           ([Log ''NACKing message'', CallNack, CallNext,
                             Log ''client disconnected while waiting for message''], Return, c'')
                         else
                           (case nerr of
                              Some e \<Rightarrow>
                                ([Log ''NACKing message'', CallNack, CallNext,
                                  LogErr e ''failed to get next value for topic'']
                                   @ respondError (Error errNextValue), Return, c'')
                            | None \<Rightarrow>
                                ([Log ''NACKing message'', CallNack, CallNext] @ respondMsg msg
                                   @ [Log ''written message to client''], Continue, c''))))
               else
                 (Log ''unrecognised command received''
                    # respondError ''unrecognised command received'', Continue, c)))"

text \<open>
  The loop, over the results of the decoder so far. It ends \<open>Returned\<close> when a turn
  returned from the handler, and \<open>Reading\<close> when every result was handled and the
  handler is in \<^verbatim>\<open>dec.Decode\<close> again.
\<close>

datatype status = Returned | Reading

fun subscribe_loop :: "'c consumer_ops \<Rightarrow> (string \<times> goerr option) list \<Rightarrow> 'c \<Rightarrow> event list \<times> status \<times> 'c" where
  "subscribe_loop ops [] c = ([], Reading, c)"
| "subscribe_loop ops (d # rest) c =
     (case subscribe_body ops d c of
        (evs, Return, c') \<Rightarrow> (evs, Returned, c')
      | (evs, Continue, c') \<Rightarrow>
          (case subscribe_loop ops rest c' of (tr, st, c'') \<Rightarrow> (evs @ tr, st, c'')))"


text \<open>
  The handler of \<^verbatim>\<open>/publish/{topic}\<close>: \<open>bpub\<close> is \<^verbatim>\<open>broker.Publish\<close> on a broker state
  \<open>'b\<close>, \<open>body\<close> the result of \<^verbatim>\<open>ioutil.ReadAll(r.Body)\<close>.
\<close>

definition publish :: "(string \<Rightarrow> value_bytes \<Rightarrow> 'b \<Rightarrow> goerr option \<times> 'b) \<Rightarrow> (string \<rightharpoonup> string) \<Rightarrow> value_bytes \<times> goerr option \<Rightarrow> 'b \<Rightarrow> event list \<times> 'b" where
  "publish bpub vars body b =
     (case vars topicVarKey of
        None \<Rightarrow>
          ([Log ''invalid topic in path'', WriteHeader StatusBadRequest]
             @ respondError (Error errInvalidTopicValue), b)
      | Some tp \<Rightarrow>
          (case body of
             (bs, Some e) \<Rightarrow>
               ([Log ''publishing to topic'', LogErr e ''failed reading request body'',
                 WriteHeader StatusInternalServerError] @ respondError (Error errReadBody), b)
           | (bs, None) \<Rightarrow>
               (case bpub tp bs b of
                  (Some e, b') \<Rightarrow>
                    ([Log ''publishing to topic'', LogErr e ''failed to publish to broker'',
                      WriteHeader StatusInternalServerError] @ respondError (Error errPublish), b')
                | (None, b') \<Rightarrow>
                    ([Log ''publishing to topic'', WriteHeader StatusCreated,
                      Log ''successfully published to topic''], b'))))"

subsection \<open>Views of a trace\<close>

text \<open>The trace of a turn put before the outcome of the rest of the loop.\<close>

definition emit :: "event list \<Rightarrow> event list \<times> status \<times> 'c \<Rightarrow> event list \<times> status \<times> 'c" where
  "emit evs r = (case r of (tr, st, c) \<Rightarrow> (evs @ tr, st, c))"

text \<open>The frames written, in order.\<close>

fun frames :: "event list \<Rightarrow> frame list" where
  "frames [] = []"
| "frames (Write f # evs) = f # frames evs"
| "frames (_ # evs) = frames evs"

text \<open>The calls of the consumer's methods, in order.\<close>

fun calls :: "event list \<Rightarrow> event list" where
  "calls [] = []"
| "calls (CallNext # evs) = CallNext # calls evs"
| "calls (CallAck # evs) = CallAck # calls evs"
| "calls (CallNack # evs) = CallNack # calls evs"
| "calls (_ # evs) = calls evs"

text \<open>The errors logged, in order.\<close>

fun logged_errors :: "event list \<Rightarrow> goerr list" where
  "logged_errors [] = []"
| "logged_errors (LogErr e _ # evs) = e # logged_errors evs"
| "logged_errors (_ # evs) = logged_errors evs"

text \<open>
  The status of the response: the one of the first \<^verbatim>\<open>WriteHeader\<close>; a write with none
  before it sends 200.
\<close>

fun status_code :: "event list \<Rightarrow> nat option" where
  "status_code [] = None"
| "status_code (WriteHeader n # _) = Some n"
| "status_code (Write _ # _) = Some 200"
| "status_code (_ # evs) = status_code evs"

subsection \<open>The router\<close>









fun strip_prefix :: "string \<Rightarrow> string \<Rightarrow> string option" where
  "strip_prefix [] ys = Some ys"
| "strip_prefix (x # xs) [] = None"
| "strip_prefix (x # xs) (y # ys) = (if x = y then strip_prefix xs ys else None)"


text \<open>
  A request: the method, the path, and what reading its body gives, as the whole body
  (for publish) and as the results of the decoder (for subscribe).
\<close>

record request =
  req_method :: string
  req_path :: string
  req_body :: "value_bytes \<times> goerr option"
  req_cmds :: "(string \<times> goerr option) list"









text \<open>
  Consumers for examples. The state of the first is the list of payloads left; its
  \<open>Next\<close> gives the first of them, and reports the cancellation when none is left.
\<close>

definition queue_consumer :: "value_bytes list consumer_ops" where
  "queue_consumer =
     \<lparr>Next = (\<lambda>q. case q of [] \<Rightarrow> (([], Some errRequestCancelled), []) | m # ms \<Rightarrow> ((m, None), ms)),
      Ack = (\<lambda>q. (None, q)),
      Nack = (\<lambda>q. (None, q))\<rparr>"

text \<open>The second fails in every method, with an error that is not the cancellation.\<close>

definition failing_consumer :: "nat consumer_ops" where
  "failing_consumer =
     \<lparr>Next = (\<lambda>n. (([], Some (plainError ''store closed'')), Suc n)),
      Ack = (\<lambda>n. (Some (plainError ''nothing to ack''), Suc n)),
      Nack = (\<lambda>n. (Some (plainError ''nothing to nack''), Suc n))\<rparr>"


text \<open>Errors for examples: two that a closed connection gives, one of a command that is no string,
  and the cancellation wrapped in another error.\<close>

definition cancel_error :: goerr where
  "cancel_error = plainError ''stream error: stream ID 1; CANCEL''"

definition gone_error :: goerr where
  "gone_error = plainError ''client disconnected''"

definition type_error :: goerr where
  "type_error = plainError ''json: cannot unmarshal number into Go value of type string''"

definition wrapped_cancel :: goerr where
  "wrapped_cancel = wrapError ''next: request context cancelled'' errRequestCancelled"

section \<open>Properties of the broker\<close>

subsection \<open>Channels and the notification scan\<close>

lemma try_send_full: "chan_recvq ch = 0 \<Longrightarrow> chan_cap ch \<le> length (chan_buf ch) \<Longrightarrow> try_send ev ch = (False, ch)"
  by (simp add: try_send_def)

lemma send_on_reject: "\<not> accepts h c \<Longrightarrow> send_on h (eventChan c) ev = (False, h)"
  by (auto simp: accepts_def send_on_def try_send_def split: option.splits)

lemma send_on_accept: "accepts h c \<Longrightarrow> fst (send_on h (eventChan c) ev) = True"
  by (auto simp: accepts_def send_on_def try_send_def split: option.splits)

lemma notify_loop_none:
  "\<forall>c\<in>set cs. \<not> accepts h c \<Longrightarrow> notify_loop cs ev h = (map (\<lambda>c. (eventChan c, False)) cs, h)"
  by (induction cs) (simp_all add: send_on_reject)

lemma notify_loop_first:
  "\<forall>p\<in>set pre. \<not> accepts h p \<Longrightarrow> accepts h c \<Longrightarrow>
   notify_loop (pre @ c # post) ev h =
     (map (\<lambda>p. (eventChan p, False)) pre @ [(eventChan c, True)], snd (send_on h (eventChan c) ev))"
proof (induction pre)
  case Nil
  then show ?case using send_on_accept[of h c ev] by (cases "send_on h (eventChan c) ev") simp
next
  case (Cons p pre)
  then show ?case by (simp add: send_on_reject)
qed

lemma notify_loop_scan:
  "notify_loop cs ev h =
     (map (\<lambda>c. (eventChan c, False)) (takeWhile (\<lambda>c. \<not> accepts h c) cs)
        @ map (\<lambda>c. (eventChan c, True)) (take 1 (dropWhile (\<lambda>c. \<not> accepts h c) cs)),
      case dropWhile (\<lambda>c. \<not> accepts h c) cs of [] \<Rightarrow> h | c # _ \<Rightarrow> snd (send_on h (eventChan c) ev))"
proof (cases "\<forall>c\<in>set cs. \<not> accepts h c")
  case True
  then have tw: "takeWhile (\<lambda>c. \<not> accepts h c) cs = cs" and dw: "dropWhile (\<lambda>c. \<not> accepts h c) cs = []"
    by simp_all
  show ?thesis unfolding tw dw notify_loop_none[OF True] by simp
next
  case False
  then obtain pre c post where cs: "cs = pre @ c # post" and pre: "\<forall>p\<in>set pre. \<not> accepts h p" and c: "accepts h c"
    by (metis split_list_first_prop)
  from pre c have tw: "takeWhile (\<lambda>c. \<not> accepts h c) cs = pre" and dw: "dropWhile (\<lambda>c. \<not> accepts h c) cs = c # post"
    unfolding cs by simp_all
  show ?thesis unfolding tw dw using notify_loop_first[OF pre c] cs by simp
qed

lemma unbuffered_accepts: "all_unbuffered h \<Longrightarrow> accepts h c = awaiting h c"
  by (auto simp: all_unbuffered_def accepts_def awaiting_def split: option.splits)

lemma chan_step_unbuffered:
  "chan_cap ch = 0 \<Longrightarrow> chan_buf ch = [] \<Longrightarrow> chan_cap (chan_step ch cop) = 0 \<and> chan_buf (chan_step ch cop) = []"
  by (cases cop) (simp_all add: try_send_def)

lemma chan_run_unbuffered:
  "chan_cap ch = 0 \<Longrightarrow> chan_buf ch = [] \<Longrightarrow> chan_cap (chan_run ops ch) = 0 \<and> chan_buf (chan_run ops ch) = []"
  unfolding chan_run_def by (induction ops arbitrary: ch) (simp_all add: chan_step_unbuffered)

lemma send_on_unbuffered: "all_unbuffered h \<Longrightarrow> all_unbuffered (snd (send_on h a ev))"
  by (auto simp: all_unbuffered_def send_on_def try_send_def split: option.splits if_splits)

lemma notify_loop_unbuffered: "all_unbuffered h \<Longrightarrow> all_unbuffered (snd (notify_loop cs ev h))"
  by (simp add: notify_loop_scan send_on_unbuffered split: list.splits)

lemma broker_step_unbuffered: "all_unbuffered (chans b) \<Longrightarrow> all_unbuffered (chans (broker_step S b op))"
proof (cases op)
  case (OpPublish tp val)
  assume "all_unbuffered (chans b)"
  then show ?thesis using OpPublish
    by (auto simp: Publish_def NotifyConsumer_def notify_loop_unbuffered split: prod.splits option.splits)
next
  case (OpSubscribe tp)
  assume "all_unbuffered (chans b)"
  then show ?thesis using OpSubscribe
    by (auto simp: Subscribe_def Let_def all_unbuffered_def make_chan_def)
next
  case OpShutdown
  assume "all_unbuffered (chans b)"
  then show ?thesis using OpShutdown by (simp add: Shutdown_def split: prod.splits)
next
  case (OpNotifyConsumer tp ev)
  assume "all_unbuffered (chans b)"
  then show ?thesis using OpNotifyConsumer by (simp add: NotifyConsumer_def notify_loop_unbuffered)
next
  case (OpConsumer a cop)
  assume "all_unbuffered (chans b)"
  then show ?thesis using OpConsumer
    by (auto simp: all_unbuffered_def chan_step_unbuffered split: option.splits)
qed

lemma broker_run_unbuffered: "all_unbuffered (chans b) \<Longrightarrow> all_unbuffered (chans (broker_run S ops b))"
  unfolding broker_run_def by (induction ops arbitrary: b) (simp_all add: broker_step_unbuffered)

lemma newBroker_unbuffered: "all_unbuffered (chans (newBroker st))"
  by (simp add: newBroker_def all_unbuffered_def)

lemma taken_rejected: "taken (map (\<lambda>c. (eventChan c, False)) cs @ tr) = taken tr"
  by (induction cs) (simp_all add: taken_def)

subsection \<open>The example brokers\<close>

lemma two_waiters_eq:
  "two_waiters =
     \<lparr>store = empty_store,
      consumers = (\<lambda>_. [])(''jobs'' :=
         [\<lparr>cons_id = 0, topic = ''jobs'', eventChan = 0\<rparr>,
          \<lparr>cons_id = 1, topic = ''jobs'', eventChan = 1\<rparr>,
          \<lparr>cons_id = 2, topic = ''jobs'', eventChan = 2\<rparr>]),
      chans = [0 \<mapsto> make_chan 0, 1 \<mapsto> (make_chan 0)\<lparr>chan_recvq := 1\<rparr>, 2 \<mapsto> (make_chan 0)\<lparr>chan_recvq := 1\<rparr>],
      next_chan = 3, next_id = 3\<rparr>"
  by (simp add: two_waiters_def broker_run_def Subscribe_def newBroker_def make_chan_def Let_def
      numeral_2_eq_2 numeral_3_eq_3)

lemma no_waiters_eq:
  "no_waiters =
     \<lparr>store = empty_store,
      consumers = (\<lambda>_. [])(''jobs'' :=
         [\<lparr>cons_id = 0, topic = ''jobs'', eventChan = 0\<rparr>,
          \<lparr>cons_id = 1, topic = ''jobs'', eventChan = 1\<rparr>]),
      chans = [0 \<mapsto> make_chan 0, 1 \<mapsto> make_chan 0],
      next_chan = 2, next_id = 2\<rparr>"
  by (simp add: no_waiters_def broker_run_def Subscribe_def newBroker_def make_chan_def Let_def
      numeral_2_eq_2)

lemma no_waiters_unbuffered: "all_unbuffered (chans no_waiters)"
  unfolding no_waiters_def by (rule broker_run_unbuffered) (rule newBroker_unbuffered)

subsection \<open>The registry\<close>

lemma broker_step_consumers:
  "prefix (consumers b t) (consumers (broker_step S b op) t)"
proof (cases op)
  case (OpPublish tp val)
  then show ?thesis
    by (simp add: Publish_def NotifyConsumer_def split: prod.splits option.splits)
next
  case (OpSubscribe tp)
  then show ?thesis by (simp add: Subscribe_def Let_def)
next
  case OpShutdown
  then show ?thesis by (simp add: Shutdown_def split: prod.splits)
next
  case (OpNotifyConsumer tp ev)
  then show ?thesis by (simp add: NotifyConsumer_def)
next
  case (OpConsumer a cop)
  then show ?thesis by (simp split: option.splits)
qed

lemma broker_run_consumers:
  "prefix (consumers b t) (consumers (broker_run S ops b) t)"
  unfolding broker_run_def
proof (induction ops arbitrary: b)
  case Nil
  show ?case by simp
next
  case (Cons op ops)
  have "prefix (consumers b t) (consumers (broker_step S b op) t)"
    by (rule broker_step_consumers)
  also have "prefix \<dots> (consumers (foldl (broker_step S) (broker_step S b op) ops) t)"
    by (rule Cons.IH)
  finally show ?case by simp
qed

subsection \<open>The notification step\<close>

text \<open>
  Claim C1. \<^verbatim>\<open>NotifyConsumer\<close> goes through the consumers of the topic in the order of
  the registry and attempts a non-blocking send on the channel of each. The sends it
  attempts are: one refused send for every consumer before the first whose channel
  accepts, then the accepted send on that one, and nothing after it; so at most one send
  is taken. The broker afterwards is the broker before with the channel of that
  consumer after the send, and the store and the registry are as before. When every
  channel is unbuffered, as \<^verbatim>\<open>Subscribe\<close> makes them, and no consumer of the topic is
  waiting, no send is taken and the broker is unchanged: nothing is queued anywhere.
  The function is total: the caller is never blocked.
\<close>

theorem NotifyConsumer_scan:
  "fst (notify_loop (consumers b tp) ev (chans b)) =
       map (\<lambda>c. (eventChan c, False)) (takeWhile (\<lambda>c. \<not> accepts (chans b) c) (consumers b tp))
         @ map (\<lambda>c. (eventChan c, True)) (take 1 (dropWhile (\<lambda>c. \<not> accepts (chans b) c) (consumers b tp)))
   \<and> taken (fst (notify_loop (consumers b tp) ev (chans b))) \<le> 1
   \<and> NotifyConsumer b tp ev =
       (case dropWhile (\<lambda>c. \<not> accepts (chans b) c) (consumers b tp) of
          [] \<Rightarrow> b
        | c # _ \<Rightarrow> b\<lparr>chans := snd (send_on (chans b) (eventChan c) ev)\<rparr>)
   \<and> store (NotifyConsumer b tp ev) = store b
   \<and> consumers (NotifyConsumer b tp ev) = consumers b
   \<and> (all_unbuffered (chans b) \<longrightarrow> (\<forall>c\<in>set (consumers b tp). \<not> awaiting (chans b) c) \<longrightarrow>
        NotifyConsumer b tp ev = b \<and> taken (fst (notify_loop (consumers b tp) ev (chans b))) = 0)"
proof -
  let ?P = "\<lambda>c. \<not> accepts (chans b) c"
  let ?tr = "fst (notify_loop (consumers b tp) ev (chans b))"
  define d where "d = dropWhile ?P (consumers b tp)"
  have tr: "?tr = map (\<lambda>c. (eventChan c, False)) (takeWhile ?P (consumers b tp))
                    @ map (\<lambda>c. (eventChan c, True)) (take 1 d)"
    unfolding d_def by (simp add: notify_loop_scan)
  have one: "taken ?tr \<le> 1"
    unfolding tr taken_rejected by (cases d) (simp_all add: taken_def)
  have "snd (notify_loop (consumers b tp) ev (chans b)) =
          (case d of [] \<Rightarrow> chans b | c # _ \<Rightarrow> snd (send_on (chans b) (eventChan c) ev))"
    unfolding d_def by (simp add: notify_loop_scan)
  then have st: "NotifyConsumer b tp ev =
     (case d of [] \<Rightarrow> b | c # _ \<Rightarrow> b\<lparr>chans := snd (send_on (chans b) (eventChan c) ev)\<rparr>)"
    unfolding NotifyConsumer_def by (cases d) simp_all
  have keep: "store (NotifyConsumer b tp ev) = store b" "consumers (NotifyConsumer b tp ev) = consumers b"
    by (simp_all add: NotifyConsumer_def)
  have none: "NotifyConsumer b tp ev = b \<and> taken ?tr = 0"
    if u: "all_unbuffered (chans b)" and n: "\<forall>c\<in>set (consumers b tp). \<not> awaiting (chans b) c"
  proof -
    from u n have "\<forall>c\<in>set (consumers b tp). \<not> accepts (chans b) c"
      by (simp add: unbuffered_accepts)
    then show ?thesis
      by (simp add: NotifyConsumer_def notify_loop_none taken_def filter_empty_conv)
  qed
  from tr one st keep none show ?thesis unfolding d_def by blast
qed

theorem NotifyConsumer_scan_witness:
  "all_unbuffered (chans no_waiters)
   \<and> \<not> awaiting (chans no_waiters) \<lparr>cons_id = 0, topic = ''jobs'', eventChan = 0\<rparr>
   \<and> \<not> awaiting (chans no_waiters) \<lparr>cons_id = 1, topic = ''jobs'', eventChan = 1\<rparr>
   \<and> NotifyConsumer no_waiters ''jobs'' eventTypePublish = no_waiters
   \<and> fst (notify_loop (consumers two_waiters ''jobs'') eventTypePublish (chans two_waiters)) = [(0, False), (1, True)]
   \<and> chans (NotifyConsumer two_waiters ''jobs'' eventTypePublish) =
        [0 \<mapsto> make_chan 0, 1 \<mapsto> make_chan 0, 2 \<mapsto> (make_chan 0)\<lparr>chan_recvq := 1\<rparr>]"
proof -
  have a: "\<forall>c\<in>set (consumers no_waiters ''jobs''). \<not> awaiting (chans no_waiters) c"
    by (simp add: no_waiters_eq awaiting_def make_chan_def)
  have "NotifyConsumer no_waiters ''jobs'' eventTypePublish = no_waiters"
    using NotifyConsumer_scan [of no_waiters "''jobs''" eventTypePublish] no_waiters_unbuffered a
    by blast
  moreover have "\<not> awaiting (chans no_waiters) \<lparr>cons_id = 0, topic = ''jobs'', eventChan = 0\<rparr>"
     "\<not> awaiting (chans no_waiters) \<lparr>cons_id = 1, topic = ''jobs'', eventChan = 1\<rparr>"
    using a by (simp_all add: no_waiters_eq)
  moreover have "fst (notify_loop (consumers two_waiters ''jobs'') eventTypePublish (chans two_waiters)) = [(0, False), (1, True)]"
    by (simp add: two_waiters_eq send_on_def try_send_def make_chan_def)
  moreover have "chans (NotifyConsumer two_waiters ''jobs'' eventTypePublish) =
        [0 \<mapsto> make_chan 0, 1 \<mapsto> make_chan 0, 2 \<mapsto> (make_chan 0)\<lparr>chan_recvq := 1\<rparr>]"
    by (simp add: NotifyConsumer_def two_waiters_eq send_on_def try_send_def make_chan_def fun_upd_twist)
  ultimately show ?thesis using no_waiters_unbuffered by simp
qed

subsection \<open>The wake signal\<close>

text \<open>
  Claim C4, as stated, fails. It describes the wake signal as holding one slot: one wake
  is buffered while the consumer is not receiving, and only the sends after it are
  dropped. The channel \<^verbatim>\<open>Subscribe\<close> makes is \<^verbatim>\<open>make(chan eventType)\<close>, with no capacity: on
  the channel of a new consumer, with nothing buffered and no receiver, the first send
  is already dropped and the channel stays empty.
\<close>

theorem wake_signal_single_slot_counterexample:
  "chans (snd (Subscribe (newBroker empty_store) ''jobs''))
      (eventChan (fst (Subscribe (newBroker empty_store) ''jobs''))) = Some (make_chan 0)
   \<and> chan_cap (make_chan 0) = 0
   \<and> chan_buf (make_chan 0) = []
   \<and> chan_recvq (make_chan 0) = 0
   \<and> try_send eventTypePublish (make_chan 0) = (False, make_chan 0)"
  by (simp add: Subscribe_def Let_def newBroker_def make_chan_def try_send_def)

text \<open>
  Claim C4, amended. The wake signal of a consumer is an unbuffered channel with a
  non-blocking send. \<^verbatim>\<open>Subscribe\<close> makes it with capacity 0, and every channel of a broker
  that started with \<^verbatim>\<open>newBroker\<close> stays so. Whatever senders and receivers did to it
  before, the channel buffers no wake; a send is taken exactly when a receiver is
  waiting on it; and a send while no receiver is waiting is dropped and leaves the
  channel as it was. The send is a total function: the publisher is never blocked.
\<close>

theorem wake_signal_unbuffered:
  "chans (snd (Subscribe b tp)) (eventChan (fst (Subscribe b tp))) = Some (make_chan 0)
   \<and> all_unbuffered (chans (broker_run S bops (newBroker st)))
   \<and> chan_cap (chan_run ops (make_chan 0)) = 0
   \<and> chan_buf (chan_run ops (make_chan 0)) = []
   \<and> fst (try_send ev (chan_run ops (make_chan 0))) = (0 < chan_recvq (chan_run ops (make_chan 0)))
   \<and> (chan_recvq (chan_run ops (make_chan 0)) = 0 \<longrightarrow>
        try_send ev (chan_run ops (make_chan 0)) = (False, chan_run ops (make_chan 0)))"
proof -
  have u: "chan_cap (chan_run ops (make_chan 0)) = 0 \<and> chan_buf (chan_run ops (make_chan 0)) = []"
    by (rule chan_run_unbuffered) (simp_all add: make_chan_def)
  have a: "all_unbuffered (chans (broker_run S bops (newBroker st)))"
    by (rule broker_run_unbuffered) (rule newBroker_unbuffered)
  have s: "chans (snd (Subscribe b tp)) (eventChan (fst (Subscribe b tp))) = Some (make_chan 0)"
    by (simp add: Subscribe_def Let_def)
  from u a s show ?thesis by (simp add: try_send_def)
qed

theorem wake_signal_unbuffered_witness:
  "chan_recvq (chan_run [TrySend eventTypePublish, RecvArrive, RecvLeave, TrySend eventTypePublish] (make_chan 0)) = 0
   \<and> try_send eventTypePublish
        (chan_run [TrySend eventTypePublish, RecvArrive, RecvLeave, TrySend eventTypePublish] (make_chan 0))
      = (False, make_chan 0)
   \<and> try_send eventTypePublish (chan_run [RecvArrive] (make_chan 0)) = (True, make_chan 0)"
proof -
  have r: "chan_run [TrySend eventTypePublish, RecvArrive, RecvLeave, TrySend eventTypePublish] (make_chan 0) = make_chan 0"
    by (simp add: chan_run_def try_send_def make_chan_def)
  have "try_send eventTypePublish (chan_run [RecvArrive] (make_chan 0)) = (True, make_chan 0)"
    by (simp add: chan_run_def try_send_def make_chan_def)
  with r wake_signal_unbuffered [of no_waiters "''jobs''" list_store "[]" empty_store
      "[TrySend eventTypePublish, RecvArrive, RecvLeave, TrySend eventTypePublish]" eventTypePublish]
  show ?thesis by (simp add: make_chan_def)
qed

subsection \<open>Publish\<close>

text \<open>
  Claim C5. \<^verbatim>\<open>Publish\<close> calls \<^verbatim>\<open>Insert\<close> of the store first, and the store of the broker
  afterwards is the one \<^verbatim>\<open>Insert\<close> left. When \<^verbatim>\<open>Insert\<close> returns an error, \<^verbatim>\<open>Publish\<close>
  returns this very error and no notification happens: the channels are as before.
  When \<^verbatim>\<open>Insert\<close> succeeds, \<^verbatim>\<open>Publish\<close> runs \<^verbatim>\<open>NotifyConsumer\<close> for the topic with
  \<^verbatim>\<open>eventTypePublish\<close> and returns no error.
\<close>

theorem Publish_insert_then_notify:
  "store (snd (Publish S b tp val)) = snd (Insert S (store b) tp val)
   \<and> (Insert S (store b) tp val = (Some err, st') \<longrightarrow>
        Publish S b tp val = (Some err, b\<lparr>store := st'\<rparr>)
        \<and> chans (snd (Publish S b tp val)) = chans b)
   \<and> (Insert S (store b) tp val = (None, st') \<longrightarrow>
        Publish S b tp val = (None, NotifyConsumer (b\<lparr>store := st'\<rparr>) tp eventTypePublish))"
  by (auto simp: Publish_def NotifyConsumer_def split: prod.splits option.splits)

theorem Publish_insert_then_notify_witness:
  "Insert list_store (store two_waiters) ''bad'' ''m'' = (Some (plainError ''insert failed''), empty_store)
   \<and> Publish list_store two_waiters ''bad'' ''m'' = (Some (plainError ''insert failed''), two_waiters)
   \<and> Insert list_store (store two_waiters) ''jobs'' ''m'' = (None, empty_store(''jobs'' := [''m'']))
   \<and> Publish list_store two_waiters ''jobs'' ''m'' =
       (None, NotifyConsumer (two_waiters\<lparr>store := empty_store(''jobs'' := [''m''])\<rparr>) ''jobs'' eventTypePublish)"
proof -
  have i1: "Insert list_store (store two_waiters) ''bad'' ''m'' = (Some (plainError ''insert failed''), empty_store)"
    by (simp add: list_store_def two_waiters_eq)
  have i2: "Insert list_store (store two_waiters) ''jobs'' ''m'' = (None, empty_store(''jobs'' := [''m'']))"
    by (simp add: list_store_def two_waiters_eq empty_store_def)
  have s: "two_waiters\<lparr>store := empty_store\<rparr> = two_waiters"
    by (simp add: two_waiters_eq)
  from Publish_insert_then_notify [of list_store two_waiters "''bad''" "''m''" "plainError ''insert failed''" empty_store]
    Publish_insert_then_notify [of list_store two_waiters "''jobs''" "''m''" _ "empty_store(''jobs'' := [''m''])"]
    i1 i2 s
  show ?thesis by simp
qed

subsection \<open>Subscribe\<close>

text \<open>
  Claim C8. \<^verbatim>\<open>Subscribe\<close> has no error result. The consumer it returns is bound to the
  topic, with a channel of its own made for it, and the registry afterwards is the
  registry before with this consumer appended to the sequence of the topic. Along every
  sequence of calls of \<^verbatim>\<open>Publish\<close>, \<^verbatim>\<open>Subscribe\<close>, \<^verbatim>\<open>Shutdown\<close> and \<^verbatim>\<open>NotifyConsumer\<close>
  (and of what consumers do to their channels), the sequence of a topic before is a
  prefix of the sequence after: no consumer is removed or moved, and the sequence
  never gets shorter. The model takes every call as one step, which is what the lock of
  the registry gives.
\<close>

theorem Subscribe_appends:
  "topic (fst (Subscribe b tp)) = tp
   \<and> consumers (snd (Subscribe b tp)) = (consumers b)(tp := consumers b tp @ [fst (Subscribe b tp)])
   \<and> chans (snd (Subscribe b tp)) (eventChan (fst (Subscribe b tp))) = Some (make_chan 0)
   \<and> prefix (consumers b t) (consumers (broker_run S ops b) t)
   \<and> length (consumers b t) \<le> length (consumers (broker_run S ops b) t)"
proof -
  have "prefix (consumers b t) (consumers (broker_run S ops b) t)"
    by (rule broker_run_consumers)
  moreover from this have "length (consumers b t) \<le> length (consumers (broker_run S ops b) t)"
    by (rule prefix_length_le)
  ultimately show ?thesis by (simp add: Subscribe_def Let_def)
qed

theorem Subscribe_appends_witness:
  "consumers (snd (Subscribe no_waiters ''jobs'')) ''jobs'' =
     [\<lparr>cons_id = 0, topic = ''jobs'', eventChan = 0\<rparr>,
      \<lparr>cons_id = 1, topic = ''jobs'', eventChan = 1\<rparr>,
      \<lparr>cons_id = 2, topic = ''jobs'', eventChan = 2\<rparr>]
   \<and> prefix (consumers no_waiters ''jobs'')
        (consumers (broker_run list_store
           [OpPublish ''jobs'' ''m'', OpSubscribe ''jobs'', OpShutdown, OpNotifyConsumer ''jobs'' eventTypePublish]
           no_waiters) ''jobs'')"
  using Subscribe_appends [of no_waiters "''jobs''" "''jobs''" list_store
      "[OpPublish ''jobs'' ''m'', OpSubscribe ''jobs'', OpShutdown, OpNotifyConsumer ''jobs'' eventTypePublish]"]
  by (simp add: no_waiters_eq Subscribe_def Let_def)

section \<open>Properties of the handlers\<close>

lemma strings_Contains_sublist: "strings_Contains s substr = (\<exists>ps ss. s = ps @ substr @ ss)"
proof -
  have "strings_Contains s substr = sublist substr s"
    by (induction s) (simp_all add: sublist_Cons_right)
  then show ?thesis by (simp add: sublist_def)
qed

lemma frames_append [simp]: "frames (xs @ ys) = frames xs @ frames ys"
  by (induction xs rule: frames.induct) simp_all

lemma calls_append [simp]: "calls (xs @ ys) = calls xs @ calls ys"
  by (induction xs rule: calls.induct) simp_all

lemma logged_errors_append [simp]: "logged_errors (xs @ ys) = logged_errors xs @ logged_errors ys"
  by (induction xs rule: logged_errors.induct) simp_all

lemma isDisconnect_None [simp]: "\<not> isDisconnect None"
  by (simp add: isDisconnect_def)

lemma errors_Is_None [simp]: "\<not> errors_Is None target"
  by (simp add: errors_Is_def)

lemma subscribe_loop_turn:
  "subscribe_loop ops (d # rest) c =
     (case subscribe_body ops d c of
        (evs, Return, c') \<Rightarrow> (evs, Returned, c')
      | (evs, Continue, c') \<Rightarrow> emit evs (subscribe_loop ops rest c'))"
  by (simp add: emit_def split: prod.splits flow.splits)

lemma subscribe_loop_append:
  "subscribe_loop ops pre c = (tr, Reading, c') \<Longrightarrow>
   subscribe_loop ops (pre @ ds) c = emit tr (subscribe_loop ops ds c')"
proof (induction pre arbitrary: c tr)
  case Nil
  then show ?case by (simp add: emit_def)
next
  case (Cons d pre)
  obtain evs fl c1 where b: "subscribe_body ops d c = (evs, fl, c1)"
    by (cases "subscribe_body ops d c") auto
  show ?case
  proof (cases fl)
    case Return
    with b Cons.prems show ?thesis by simp
  next
    case Continue
    obtain tr1 st1 c2 where r: "subscribe_loop ops pre c1 = (tr1, st1, c2)"
      by (cases "subscribe_loop ops pre c1") auto
    with b Continue Cons.prems have "st1 = Reading" "c2 = c'" "tr = evs @ tr1" by simp_all
    with r have "subscribe_loop ops (pre @ ds) c1 = emit tr1 (subscribe_loop ops ds c')"
      using Cons.IH by simp
    with b Continue \<open>tr = evs @ tr1\<close> show ?thesis
      by (simp add: emit_def split: prod.splits)
  qed
qed

declare subscribe_loop.simps(2) [simp del]

subsection \<open>The turns of the loop\<close>

lemma body_disconnect:
  "isDisconnect err \<Longrightarrow>
   subscribe_body ops (cmd, err) c =
     ([Log ''client disconnected'', CallNack]
        @ (case fst (Nack ops c) of None \<Rightarrow> [] | Some e \<Rightarrow> [LogErr e ''failed to nack'']),
      Return, snd (Nack ops c))"
  by (simp add: subscribe_body_def split: prod.splits option.splits)

lemma body_decode_error:
  "\<not> isDisconnect (Some e) \<Longrightarrow>
   subscribe_body ops (cmd, Some e) c =
     ([LogErr e ''failed decoding command'', Write (ErrorFrame ''error decoding command'')], Return, c)"
  by (simp add: subscribe_body_def respondError_def errDecodingCmd_def)

lemma body_unrecognised:
  "cmd \<noteq> CmdInit \<Longrightarrow> cmd \<noteq> CmdAck \<Longrightarrow> cmd \<noteq> CmdNack \<Longrightarrow>
   subscribe_body ops (cmd, None) c =
     ([Log ''unrecognised command received'', Write (ErrorFrame ''unrecognised command received'')],
      Continue, c)"
  by (simp add: subscribe_body_def respondError_def)

lemma Cmd_distinct [simp]: "CmdInit \<noteq> CmdAck" "CmdInit \<noteq> CmdNack" "CmdAck \<noteq> CmdNack"
  "CmdAck \<noteq> CmdInit" "CmdNack \<noteq> CmdInit" "CmdNack \<noteq> CmdAck"
  by (simp_all add: CmdInit_def CmdAck_def CmdNack_def)

lemma body_init:
  "Next ops c = ((msg, nerr), c') \<Longrightarrow>
   subscribe_body ops (CmdInit, None) c =
     (if errors_Is nerr errRequestCancelled then
        ([Log ''initialising consumer'', CallNext,
          Log ''client disconnected while waiting for message''], Return, c')
      else
        (case nerr of
           Some e \<Rightarrow>
             ([Log ''initialising consumer'', CallNext, LogErr e ''failed to get next value for topic'',
               Write (ErrorFrame ''error getting next value for consumer'')], Return, c')
         | None \<Rightarrow>
             ([Log ''initialising consumer'', CallNext, Write (MsgFrame msg),
               Log ''written message to client''], Continue, c')))"
  by (simp add: subscribe_body_def respondError_def respondMsg_def errNextValue_def split: option.splits)

lemma body_ack_fail:
  "Ack ops c = (Some e, c') \<Longrightarrow>
   subscribe_body ops (CmdAck, None) c =
     ([Log ''ACKing message'', CallAck, LogErr e ''failed to ACK'',
       Write (ErrorFrame ''error ACKing message'')], Return, c')"
  by (simp add: subscribe_body_def respondError_def errAck_def)

lemma body_ack_ok:
  "Ack ops c = (None, c') \<Longrightarrow> Next ops c' = ((msg, nerr), c'') \<Longrightarrow>
   subscribe_body ops (CmdAck, None) c =
     (if errors_Is nerr errRequestCancelled then
        ([Log ''ACKing message'', CallAck, CallNext,
          Log ''client disconnected while waiting for message''], Return, c'')
      else
        (case nerr of
           Some e \<Rightarrow>
             ([Log ''ACKing message'', CallAck, CallNext, LogErr e ''failed to get next value for topic'',
               Write (ErrorFrame ''error getting next value for consumer'')], Return, c'')
         | None \<Rightarrow>
             ([Log ''ACKing message'', CallAck, CallNext, Write (MsgFrame msg),
               Log ''written message to client''], Continue, c'')))"
  by (simp add: subscribe_body_def respondError_def respondMsg_def errNextValue_def split: option.splits)

lemma body_nack_fail:
  "Nack ops c = (Some e, c') \<Longrightarrow>
   subscribe_body ops (CmdNack, None) c =
     ([Log ''NACKing message'', CallNack, LogErr e ''failed to NACK'',
       Write (ErrorFrame ''error NACKing message'')], Return, c')"
  by (simp add: subscribe_body_def respondError_def errNack_def)

lemma body_nack_ok:
  "Nack ops c = (None, c') \<Longrightarrow> Next ops c' = ((msg, nerr), c'') \<Longrightarrow>
   subscribe_body ops (CmdNack, None) c =
     (if errors_Is nerr errRequestCancelled then
        ([Log ''NACKing message'', CallNack, CallNext,
          Log ''client disconnected while waiting for message''], Return, c'')
      else
        (case nerr of
           Some e \<Rightarrow>
             ([Log ''NACKing message'', CallNack, CallNext, LogErr e ''failed to get next value for topic'',
               Write (ErrorFrame ''error getting next value for consumer'')], Return, c'')
         | None \<Rightarrow>
             ([Log ''NACKing message'', CallNack, CallNext, Write (MsgFrame msg),
               Log ''written message to client''], Continue, c'')))"
  by (simp add: subscribe_body_def respondError_def respondMsg_def errNextValue_def split: option.splits)

subsection \<open>The outcomes of a turn in the loop\<close>

lemma loop_init_outcome:
  "Next ops c = ((msg, nerr), c') \<Longrightarrow>
   subscribe_loop ops ((CmdInit, None) # rest) c =
     (if errors_Is nerr errRequestCancelled then
        ([Log ''initialising consumer'', CallNext,
          Log ''client disconnected while waiting for message''], Returned, c')
      else
        (case nerr of
           Some e \<Rightarrow>
             ([Log ''initialising consumer'', CallNext, LogErr e ''failed to get next value for topic'',
               Write (ErrorFrame ''error getting next value for consumer'')], Returned, c')
         | None \<Rightarrow>
             emit [Log ''initialising consumer'', CallNext, Write (MsgFrame msg),
                   Log ''written message to client''] (subscribe_loop ops rest c')))"
  by (simp add: subscribe_loop_turn body_init split: option.splits)

lemma loop_ack_outcome:
  "Ack ops c = (None, c1) \<Longrightarrow> Next ops c1 = ((msg, nerr), c') \<Longrightarrow>
   subscribe_loop ops ((CmdAck, None) # rest) c =
     (if errors_Is nerr errRequestCancelled then
        ([Log ''ACKing message'', CallAck, CallNext,
          Log ''client disconnected while waiting for message''], Returned, c')
      else
        (case nerr of
           Some e \<Rightarrow>
             ([Log ''ACKing message'', CallAck, CallNext, LogErr e ''failed to get next value for topic'',
               Write (ErrorFrame ''error getting next value for consumer'')], Returned, c')
         | None \<Rightarrow>
             emit [Log ''ACKing message'', CallAck, CallNext, Write (MsgFrame msg),
                   Log ''written message to client''] (subscribe_loop ops rest c')))"
  by (simp add: subscribe_loop_turn body_ack_ok split: option.splits)

lemma loop_nack_outcome:
  "Nack ops c = (None, c1) \<Longrightarrow> Next ops c1 = ((msg, nerr), c') \<Longrightarrow>
   subscribe_loop ops ((CmdNack, None) # rest) c =
     (if errors_Is nerr errRequestCancelled then
        ([Log ''NACKing message'', CallNack, CallNext,
          Log ''client disconnected while waiting for message''], Returned, c')
      else
        (case nerr of
           Some e \<Rightarrow>
             ([Log ''NACKing message'', CallNack, CallNext, LogErr e ''failed to get next value for topic'',
               Write (ErrorFrame ''error getting next value for consumer'')], Returned, c')
         | None \<Rightarrow>
             emit [Log ''NACKing message'', CallNack, CallNext, Write (MsgFrame msg),
                   Log ''written message to client''] (subscribe_loop ops rest c')))"
  by (simp add: subscribe_loop_turn body_nack_ok split: option.splits)

lemma emit_views:
  "frames (fst (emit evs r)) = frames evs @ frames (fst r)"
  "calls (fst (emit evs r)) = calls evs @ calls (fst r)"
  "snd (emit evs r) = snd r"
  by (cases r; simp add: emit_def)+

subsection \<open>The example errors\<close>

lemma cancel_error_disconnect: "isDisconnect (Some cancel_error)"
  by (simp add: isDisconnect_def cancel_error_def)

lemma gone_error_disconnect: "isDisconnect (Some gone_error)"
  by (simp add: isDisconnect_def gone_error_def)

lemma type_error_no_disconnect: "\<not> isDisconnect (Some type_error)"
  by (simp add: isDisconnect_def type_error_def)

subsection \<open>Disconnects\<close>

text \<open>
  Claim C2. In a turn of the loop whose read failed with an error that \<^verbatim>\<open>isDisconnect\<close>
  takes for a disconnect, whatever the state \<open>c\<close> of the consumer (a message claimed or
  not), the handler calls \<^verbatim>\<open>Nack\<close> once and no other method, writes no frame, and
  returns, leaving the rest of the input unread. When this \<^verbatim>\<open>Nack\<close> fails, its error is
  logged and nothing else happens with it. By \<open>subscribe_loop_append\<close> the turn may come
  after any turns before it.
\<close>

theorem disconnect_implies_one_Nack:
  "isDisconnect err \<longrightarrow>
     subscribe_loop ops ((cmd, err) # rest) c =
       ([Log ''client disconnected'', CallNack]
          @ (case fst (Nack ops c) of None \<Rightarrow> [] | Some e \<Rightarrow> [LogErr e ''failed to nack'']),
        Returned, snd (Nack ops c))
     \<and> calls (fst (subscribe_loop ops ((cmd, err) # rest) c)) = [CallNack]
     \<and> frames (fst (subscribe_loop ops ((cmd, err) # rest) c)) = []
     \<and> logged_errors (fst (subscribe_loop ops ((cmd, err) # rest) c)) =
          (case fst (Nack ops c) of None \<Rightarrow> [] | Some e \<Rightarrow> [e])"
proof
  assume d: "isDisconnect err"
  have l: "subscribe_loop ops ((cmd, err) # rest) c =
       ([Log ''client disconnected'', CallNack]
          @ (case fst (Nack ops c) of None \<Rightarrow> [] | Some e \<Rightarrow> [LogErr e ''failed to nack'']),
        Returned, snd (Nack ops c))"
    by (simp add: subscribe_loop_turn body_disconnect [OF d])
  show "subscribe_loop ops ((cmd, err) # rest) c =
       ([Log ''client disconnected'', CallNack]
          @ (case fst (Nack ops c) of None \<Rightarrow> [] | Some e \<Rightarrow> [LogErr e ''failed to nack'']),
        Returned, snd (Nack ops c))
     \<and> calls (fst (subscribe_loop ops ((cmd, err) # rest) c)) = [CallNack]
     \<and> frames (fst (subscribe_loop ops ((cmd, err) # rest) c)) = []
     \<and> logged_errors (fst (subscribe_loop ops ((cmd, err) # rest) c)) =
          (case fst (Nack ops c) of None \<Rightarrow> [] | Some e \<Rightarrow> [e])"
    unfolding l by (simp split: option.splits)
qed

theorem disconnect_implies_one_Nack_witness:
  "isDisconnect (Some cancel_error)
   \<and> subscribe_loop failing_consumer [([], Some cancel_error), (CmdInit, None)] 0 =
       ([Log ''client disconnected'', CallNack, LogErr (plainError ''nothing to nack'') ''failed to nack''],
        Returned, 1)
   \<and> subscribe_loop queue_consumer [([], Some cancel_error), (CmdInit, None)] [''m''] =
       ([Log ''client disconnected'', CallNack], Returned, [''m''])"
  using disconnect_implies_one_Nack [of "Some cancel_error" failing_consumer "[]" "[(CmdInit, None)]" 0]
    disconnect_implies_one_Nack [of "Some cancel_error" queue_consumer "[]" "[(CmdInit, None)]" "[''m'']"]
    cancel_error_disconnect
  by (simp add: failing_consumer_def queue_consumer_def)


subsection \<open>Malformed and unrecognised commands\<close>

text \<open>
  Claim C3, as stated, fails for a malformed command. A command that does not decode (a
  JSON number where a string is expected), with an error that is no disconnect, gets
  its one error frame, but then the handler returns: the \<^verbatim>\<open>INIT\<close> sent after it is never
  handled, where the loop alone would have answered it with the message.
\<close>

theorem malformed_command_counterexample:
  "\<not> isDisconnect (Some type_error)
   \<and> subscribe_loop queue_consumer [([], Some type_error), (CmdInit, None)] [''m''] =
       ([LogErr type_error ''failed decoding command'', Write (ErrorFrame ''error decoding command'')],
        Returned, [''m''])
   \<and> subscribe_loop queue_consumer [(CmdInit, None)] [''m''] =
       ([Log ''initialising consumer'', CallNext, Write (MsgFrame ''m''), Log ''written message to client''],
        Reading, [])"
proof -
  have n: "Next queue_consumer [''m''] = ((''m'', None), [])"
    by (simp add: queue_consumer_def)
  show ?thesis
    using type_error_no_disconnect
    by (simp add: subscribe_loop_turn body_decode_error body_init [OF n] emit_def)
qed

text \<open>
  Claim C3, amended. A command that decodes and is none of \<^verbatim>\<open>INIT\<close>, \<^verbatim>\<open>ACK\<close> and \<^verbatim>\<open>NACK\<close>
  is not fatal: the handler writes one error frame, calls no method of the consumer and
  goes on with the next command, in the same state. A command that fails to decode,
  with an error that is no disconnect, gets one error frame
  (\<^verbatim>\<open>error decoding command\<close>) and ends the loop.
\<close>

theorem unrecognised_continues_malformed_ends:
  "(cmd \<noteq> CmdInit \<and> cmd \<noteq> CmdAck \<and> cmd \<noteq> CmdNack \<longrightarrow>
      subscribe_loop ops ((cmd, None) # rest) c =
        emit [Log ''unrecognised command received'', Write (ErrorFrame ''unrecognised command received'')]
          (subscribe_loop ops rest c))
   \<and> (\<not> isDisconnect (Some e) \<longrightarrow>
        subscribe_loop ops ((cmd, Some e) # rest) c =
          ([LogErr e ''failed decoding command'', Write (ErrorFrame ''error decoding command'')],
           Returned, c))"
  by (simp add: subscribe_loop_turn body_unrecognised body_decode_error)

theorem unrecognised_continues_malformed_ends_witness:
  "''PING'' \<noteq> CmdInit \<and> ''PING'' \<noteq> CmdAck \<and> ''PING'' \<noteq> CmdNack
   \<and> subscribe_loop queue_consumer [(''PING'', None), (CmdInit, None)] [''m''] =
       ([Log ''unrecognised command received'', Write (ErrorFrame ''unrecognised command received''),
         Log ''initialising consumer'', CallNext, Write (MsgFrame ''m''), Log ''written message to client''],
        Reading, [])
   \<and> \<not> isDisconnect (Some type_error)
   \<and> subscribe_loop queue_consumer [(''PING'', Some type_error), (CmdInit, None)] [''m''] =
       ([LogErr type_error ''failed decoding command'', Write (ErrorFrame ''error decoding command'')],
        Returned, [''m''])"
proof -
  have n: "''PING'' \<noteq> CmdInit \<and> ''PING'' \<noteq> CmdAck \<and> ''PING'' \<noteq> CmdNack"
    by (simp add: CmdInit_def CmdAck_def CmdNack_def)
  have i: "subscribe_loop queue_consumer [(CmdInit, None)] [''m''] =
       ([Log ''initialising consumer'', CallNext, Write (MsgFrame ''m''), Log ''written message to client''],
        Reading, [])"
  proof -
    have "Next queue_consumer [''m''] = ((''m'', None), [])"
      by (simp add: queue_consumer_def)
    then show ?thesis
      by (simp add: subscribe_loop_turn body_init emit_def)
  qed
  from unrecognised_continues_malformed_ends [of "''PING''" queue_consumer "[(CmdInit, None)]" "[''m'']" type_error]
    n i type_error_no_disconnect
  show ?thesis by (simp add: emit_def)
qed

subsection \<open>The results of Next\<close>

text \<open>
  Claim C7. At each of the three calls of \<^verbatim>\<open>Next\<close> (for \<^verbatim>\<open>INIT\<close>, and after a successful
  \<^verbatim>\<open>Ack\<close> or \<^verbatim>\<open>Nack\<close>): when the error \<^verbatim>\<open>Next\<close> returns is \<^verbatim>\<open>errRequestCancelled\<close> by
  \<^verbatim>\<open>errors.Is\<close>, the handler returns with no frame written and no call after
  \<^verbatim>\<open>Next\<close>; when it is any other error, the handler writes one error frame
  (\<^verbatim>\<open>error getting next value for consumer\<close>), calls nothing after \<^verbatim>\<open>Next\<close>, and
  returns.
\<close>

theorem Next_cancellation_is_silent:
  "(Next ops c = ((msg, nerr), c') \<and> errors_Is nerr errRequestCancelled \<longrightarrow>
      subscribe_loop ops ((CmdInit, None) # rest) c =
        ([Log ''initialising consumer'', CallNext,
          Log ''client disconnected while waiting for message''], Returned, c')
      \<and> frames (fst (subscribe_loop ops ((CmdInit, None) # rest) c)) = []
      \<and> calls (fst (subscribe_loop ops ((CmdInit, None) # rest) c)) = [CallNext])
   \<and> (Next ops c = ((msg, Some e), c') \<and> \<not> errors_Is (Some e) errRequestCancelled \<longrightarrow>
      subscribe_loop ops ((CmdInit, None) # rest) c =
        ([Log ''initialising consumer'', CallNext, LogErr e ''failed to get next value for topic'',
          Write (ErrorFrame ''error getting next value for consumer'')], Returned, c')
      \<and> frames (fst (subscribe_loop ops ((CmdInit, None) # rest) c)) =
          [ErrorFrame ''error getting next value for consumer'']
      \<and> calls (fst (subscribe_loop ops ((CmdInit, None) # rest) c)) = [CallNext])
   \<and> (Ack ops c = (None, c1) \<and> Next ops c1 = ((msg, nerr), c') \<and> errors_Is nerr errRequestCancelled \<longrightarrow>
      subscribe_loop ops ((CmdAck, None) # rest) c =
        ([Log ''ACKing message'', CallAck, CallNext,
          Log ''client disconnected while waiting for message''], Returned, c')
      \<and> frames (fst (subscribe_loop ops ((CmdAck, None) # rest) c)) = []
      \<and> calls (fst (subscribe_loop ops ((CmdAck, None) # rest) c)) = [CallAck, CallNext])
   \<and> (Ack ops c = (None, c1) \<and> Next ops c1 = ((msg, Some e), c')
        \<and> \<not> errors_Is (Some e) errRequestCancelled \<longrightarrow>
      subscribe_loop ops ((CmdAck, None) # rest) c =
        ([Log ''ACKing message'', CallAck, CallNext, LogErr e ''failed to get next value for topic'',
          Write (ErrorFrame ''error getting next value for consumer'')], Returned, c')
      \<and> frames (fst (subscribe_loop ops ((CmdAck, None) # rest) c)) =
          [ErrorFrame ''error getting next value for consumer'']
      \<and> calls (fst (subscribe_loop ops ((CmdAck, None) # rest) c)) = [CallAck, CallNext])
   \<and> (Nack ops c = (None, c1) \<and> Next ops c1 = ((msg, nerr), c') \<and> errors_Is nerr errRequestCancelled \<longrightarrow>
      subscribe_loop ops ((CmdNack, None) # rest) c =
        ([Log ''NACKing message'', CallNack, CallNext,
          Log ''client disconnected while waiting for message''], Returned, c')
      \<and> frames (fst (subscribe_loop ops ((CmdNack, None) # rest) c)) = []
      \<and> calls (fst (subscribe_loop ops ((CmdNack, None) # rest) c)) = [CallNack, CallNext])
   \<and> (Nack ops c = (None, c1) \<and> Next ops c1 = ((msg, Some e), c')
        \<and> \<not> errors_Is (Some e) errRequestCancelled \<longrightarrow>
      subscribe_loop ops ((CmdNack, None) # rest) c =
        ([Log ''NACKing message'', CallNack, CallNext, LogErr e ''failed to get next value for topic'',
          Write (ErrorFrame ''error getting next value for consumer'')], Returned, c')
      \<and> frames (fst (subscribe_loop ops ((CmdNack, None) # rest) c)) =
          [ErrorFrame ''error getting next value for consumer'']
      \<and> calls (fst (subscribe_loop ops ((CmdNack, None) # rest) c)) = [CallNack, CallNext])"
proof -
  have init: "subscribe_loop ops ((CmdInit, None) # rest) c =
        (if errors_Is nerr errRequestCancelled then
           ([Log ''initialising consumer'', CallNext,
             Log ''client disconnected while waiting for message''], Returned, c')
         else ([Log ''initialising consumer'', CallNext, LogErr e ''failed to get next value for topic'',
             Write (ErrorFrame ''error getting next value for consumer'')], Returned, c'))"
    if "Next ops c = ((msg, nerr), c')" "errors_Is nerr errRequestCancelled \<or> nerr = Some e" for nerr
    using that by (auto simp: subscribe_loop_turn body_init)
  have ack: "subscribe_loop ops ((CmdAck, None) # rest) c =
        (if errors_Is nerr errRequestCancelled then
           ([Log ''ACKing message'', CallAck, CallNext,
             Log ''client disconnected while waiting for message''], Returned, c')
         else ([Log ''ACKing message'', CallAck, CallNext, LogErr e ''failed to get next value for topic'',
             Write (ErrorFrame ''error getting next value for consumer'')], Returned, c'))"
    if "Ack ops c = (None, c1)" "Next ops c1 = ((msg, nerr), c')"
       "errors_Is nerr errRequestCancelled \<or> nerr = Some e" for nerr
    using that by (auto simp: subscribe_loop_turn body_ack_ok)
  have nack: "subscribe_loop ops ((CmdNack, None) # rest) c =
        (if errors_Is nerr errRequestCancelled then
           ([Log ''NACKing message'', CallNack, CallNext,
             Log ''client disconnected while waiting for message''], Returned, c')
         else ([Log ''NACKing message'', CallNack, CallNext, LogErr e ''failed to get next value for topic'',
             Write (ErrorFrame ''error getting next value for consumer'')], Returned, c'))"
    if "Nack ops c = (None, c1)" "Next ops c1 = ((msg, nerr), c')"
       "errors_Is nerr errRequestCancelled \<or> nerr = Some e" for nerr
    using that by (auto simp: subscribe_loop_turn body_nack_ok)
  show ?thesis
    by (intro conjI impI; (elim conjE)?; simp add: init ack nack)
qed

theorem Next_cancellation_is_silent_witness:
  "Next queue_consumer [] = (([], Some errRequestCancelled), [])
   \<and> errors_Is (Some errRequestCancelled) errRequestCancelled
   \<and> subscribe_loop queue_consumer [(CmdInit, None), (CmdAck, None)] [] =
       ([Log ''initialising consumer'', CallNext,
         Log ''client disconnected while waiting for message''], Returned, [])
   \<and> Next failing_consumer 0 = (([], Some (plainError ''store closed'')), 1)
   \<and> \<not> errors_Is (Some (plainError ''store closed'')) errRequestCancelled
   \<and> subscribe_loop failing_consumer [(CmdInit, None), (CmdAck, None)] 0 =
       ([Log ''initialising consumer'', CallNext,
         LogErr (plainError ''store closed'') ''failed to get next value for topic'',
         Write (ErrorFrame ''error getting next value for consumer'')], Returned, 1)
   \<and> errors_Is (Some wrapped_cancel) errRequestCancelled"
proof -
  have n1: "Next queue_consumer [] = (([], Some errRequestCancelled), [])"
    by (simp add: queue_consumer_def)
  have e1: "errors_Is (Some errRequestCancelled) errRequestCancelled"
    by (simp add: errors_Is_def errRequestCancelled_def)
  have n2: "Next failing_consumer 0 = (([], Some (plainError ''store closed'')), 1)"
    by (simp add: failing_consumer_def)
  have e2: "\<not> errors_Is (Some (plainError ''store closed'')) errRequestCancelled"
    by (simp add: errors_Is_def errRequestCancelled_def)
  have e3: "errors_Is (Some wrapped_cancel) errRequestCancelled"
    by (simp add: errors_Is_def wrapped_cancel_def errRequestCancelled_def)
  from Next_cancellation_is_silent [of queue_consumer "[]" "[]" "Some errRequestCancelled" "[]" "[(CmdAck, None)]"]
    Next_cancellation_is_silent [of failing_consumer 0 "[]" _ 1 "[(CmdAck, None)]" "plainError ''store closed''"]
    n1 e1 n2 e2 e3
  show ?thesis by simp
qed


subsection \<open>ACK and NACK\<close>

text \<open>
  Claim C6. For \<^verbatim>\<open>ACK\<close> (and in the same way for \<^verbatim>\<open>NACK\<close>): when \<^verbatim>\<open>Ack\<close> fails, the
  handler writes one error frame and returns. When it succeeds, what follows is what
  \<^verbatim>\<open>INIT\<close> does from the state \<^verbatim>\<open>Ack\<close> left: the same frames, the same calls after the
  \<^verbatim>\<open>Ack\<close>, the same end of the loop and the same final state. The last part says what
  \<^verbatim>\<open>INIT\<close> does: the message frame and the next turn when \<^verbatim>\<open>Next\<close> succeeds, a silent
  return on the cancellation, one error frame and a return on any other error.
\<close>

theorem Ack_Nack_then_Next:
  "(Ack ops c = (Some e, c') \<longrightarrow>
      subscribe_loop ops ((CmdAck, None) # rest) c =
        ([Log ''ACKing message'', CallAck, LogErr e ''failed to ACK'',
          Write (ErrorFrame ''error ACKing message'')], Returned, c'))
   \<and> (Nack ops c = (Some e, c') \<longrightarrow>
      subscribe_loop ops ((CmdNack, None) # rest) c =
        ([Log ''NACKing message'', CallNack, LogErr e ''failed to NACK'',
          Write (ErrorFrame ''error NACKing message'')], Returned, c'))
   \<and> (Ack ops c = (None, c') \<longrightarrow>
      frames (fst (subscribe_loop ops ((CmdAck, None) # rest) c)) =
        frames (fst (subscribe_loop ops ((CmdInit, None) # rest) c'))
      \<and> calls (fst (subscribe_loop ops ((CmdAck, None) # rest) c)) =
          CallAck # calls (fst (subscribe_loop ops ((CmdInit, None) # rest) c'))
      \<and> snd (subscribe_loop ops ((CmdAck, None) # rest) c) =
          snd (subscribe_loop ops ((CmdInit, None) # rest) c'))
   \<and> (Nack ops c = (None, c') \<longrightarrow>
      frames (fst (subscribe_loop ops ((CmdNack, None) # rest) c)) =
        frames (fst (subscribe_loop ops ((CmdInit, None) # rest) c'))
      \<and> calls (fst (subscribe_loop ops ((CmdNack, None) # rest) c)) =
          CallNack # calls (fst (subscribe_loop ops ((CmdInit, None) # rest) c'))
      \<and> snd (subscribe_loop ops ((CmdNack, None) # rest) c) =
          snd (subscribe_loop ops ((CmdInit, None) # rest) c'))
   \<and> (Next ops c' = ((msg, nerr), c'') \<longrightarrow>
      subscribe_loop ops ((CmdInit, None) # rest) c' =
        (if errors_Is nerr errRequestCancelled then
           ([Log ''initialising consumer'', CallNext,
             Log ''client disconnected while waiting for message''], Returned, c'')
         else
           (case nerr of
              Some e \<Rightarrow>
                ([Log ''initialising consumer'', CallNext, LogErr e ''failed to get next value for topic'',
                  Write (ErrorFrame ''error getting next value for consumer'')], Returned, c'')
            | None \<Rightarrow>
                emit [Log ''initialising consumer'', CallNext, Write (MsgFrame msg),
                      Log ''written message to client''] (subscribe_loop ops rest c''))))"
proof -
  obtain m ne cn where n: "Next ops c' = ((m, ne), cn)"
    by (cases "Next ops c'") auto
  have a: "frames (fst (subscribe_loop ops ((CmdAck, None) # rest) c)) =
        frames (fst (subscribe_loop ops ((CmdInit, None) # rest) c'))
      \<and> calls (fst (subscribe_loop ops ((CmdAck, None) # rest) c)) =
          CallAck # calls (fst (subscribe_loop ops ((CmdInit, None) # rest) c'))
      \<and> snd (subscribe_loop ops ((CmdAck, None) # rest) c) =
          snd (subscribe_loop ops ((CmdInit, None) # rest) c')"
    if "Ack ops c = (None, c')"
    unfolding loop_ack_outcome [OF that n] loop_init_outcome [OF n]
    by (simp add: emit_views split: option.splits)
  have b: "frames (fst (subscribe_loop ops ((CmdNack, None) # rest) c)) =
        frames (fst (subscribe_loop ops ((CmdInit, None) # rest) c'))
      \<and> calls (fst (subscribe_loop ops ((CmdNack, None) # rest) c)) =
          CallNack # calls (fst (subscribe_loop ops ((CmdInit, None) # rest) c'))
      \<and> snd (subscribe_loop ops ((CmdNack, None) # rest) c) =
          snd (subscribe_loop ops ((CmdInit, None) # rest) c')"
    if "Nack ops c = (None, c')"
    unfolding loop_nack_outcome [OF that n] loop_init_outcome [OF n]
    by (simp add: emit_views split: option.splits)
  have f: "subscribe_loop ops ((CmdAck, None) # rest) c =
        ([Log ''ACKing message'', CallAck, LogErr e ''failed to ACK'',
          Write (ErrorFrame ''error ACKing message'')], Returned, c')"
    if "Ack ops c = (Some e, c')"
    using that by (simp add: subscribe_loop_turn body_ack_fail)
  have g: "subscribe_loop ops ((CmdNack, None) # rest) c =
        ([Log ''NACKing message'', CallNack, LogErr e ''failed to NACK'',
          Write (ErrorFrame ''error NACKing message'')], Returned, c')"
    if "Nack ops c = (Some e, c')"
    using that by (simp add: subscribe_loop_turn body_nack_fail)
  from a b f g loop_init_outcome [of ops c' msg nerr c'' rest] show ?thesis by blast
qed

theorem Ack_Nack_then_Next_witness:
  "Ack failing_consumer 0 = (Some (plainError ''nothing to ack''), 1)
   \<and> subscribe_loop failing_consumer [(CmdAck, None), (CmdInit, None)] 0 =
       ([Log ''ACKing message'', CallAck, LogErr (plainError ''nothing to ack'') ''failed to ACK'',
         Write (ErrorFrame ''error ACKing message'')], Returned, 1)
   \<and> Nack failing_consumer 0 = (Some (plainError ''nothing to nack''), 1)
   \<and> subscribe_loop failing_consumer [(CmdNack, None), (CmdInit, None)] 0 =
       ([Log ''NACKing message'', CallNack, LogErr (plainError ''nothing to nack'') ''failed to NACK'',
         Write (ErrorFrame ''error NACKing message'')], Returned, 1)
   \<and> Ack queue_consumer [''b''] = (None, [''b''])
   \<and> Nack queue_consumer [''b''] = (None, [''b''])
   \<and> Next queue_consumer [''b''] = ((''b'', None), [])
   \<and> subscribe_loop queue_consumer [(CmdInit, None)] [''b''] =
       ([Log ''initialising consumer'', CallNext, Write (MsgFrame ''b''),
         Log ''written message to client''], Reading, [])
   \<and> frames (fst (subscribe_loop queue_consumer [(CmdAck, None)] [''b''])) = [MsgFrame ''b'']
   \<and> calls (fst (subscribe_loop queue_consumer [(CmdAck, None)] [''b''])) = [CallAck, CallNext]
   \<and> snd (subscribe_loop queue_consumer [(CmdAck, None)] [''b'']) = (Reading, [])
   \<and> frames (fst (subscribe_loop queue_consumer [(CmdNack, None)] [''b''])) = [MsgFrame ''b'']
   \<and> calls (fst (subscribe_loop queue_consumer [(CmdNack, None)] [''b''])) = [CallNack, CallNext]
   \<and> snd (subscribe_loop queue_consumer [(CmdNack, None)] [''b'']) = (Reading, [])"
proof -
  have a1: "Ack failing_consumer 0 = (Some (plainError ''nothing to ack''), 1)"
    and a2: "Nack failing_consumer 0 = (Some (plainError ''nothing to nack''), 1)"
    by (simp_all add: failing_consumer_def)
  have q1: "Ack queue_consumer [''b''] = (None, [''b''])"
    and q2: "Nack queue_consumer [''b''] = (None, [''b''])"
    and q3: "Next queue_consumer [''b''] = ((''b'', None), [])"
    by (simp_all add: queue_consumer_def)
  from Ack_Nack_then_Next [of failing_consumer 0 "plainError ''nothing to ack''" 1 "[(CmdInit, None)]"]
    Ack_Nack_then_Next [of failing_consumer 0 "plainError ''nothing to nack''" 1 "[(CmdInit, None)]"]
    Ack_Nack_then_Next [of queue_consumer "[''b'']" _ "[''b'']" "[]" "''b''" None "[]"]
    a1 a2 q1 q2 q3
  show ?thesis by (simp add: emit_def)
qed


subsection \<open>The publish handler\<close>

text \<open>
  The handler alone, on variables of the route with and without the topic.
\<close>

lemma publish_handler_cases:
  "(vars topicVarKey = None \<longrightarrow>
      status_code (fst (publish bpub vars body b)) = Some 400
      \<and> frames (fst (publish bpub vars body b)) = [ErrorFrame ''invalid topic value'']
      \<and> snd (publish bpub vars body b) = b)
   \<and> (vars topicVarKey = Some tp \<and> body = (bs, Some e) \<longrightarrow>
      status_code (fst (publish bpub vars body b)) = Some 500
      \<and> frames (fst (publish bpub vars body b)) = [ErrorFrame ''error reading the request body'']
      \<and> snd (publish bpub vars body b) = b)
   \<and> (vars topicVarKey = Some tp \<and> body = (bs, None) \<and> bpub tp bs b = (Some e, b') \<longrightarrow>
      status_code (fst (publish bpub vars body b)) = Some 500
      \<and> frames (fst (publish bpub vars body b)) = [ErrorFrame ''error publishing to broker'']
      \<and> snd (publish bpub vars body b) = b')
   \<and> (vars topicVarKey = Some tp \<and> body = (bs, None) \<and> bpub tp bs b = (None, b') \<longrightarrow>
      status_code (fst (publish bpub vars body b)) = Some 201
      \<and> frames (fst (publish bpub vars body b)) = []
      \<and> snd (publish bpub vars body b) = b')"
  by (simp add: publish_def respondError_def StatusBadRequest_def StatusInternalServerError_def
      StatusCreated_def errInvalidTopicValue_def errReadBody_def errPublish_def)

subsection \<open>The router in front of the handlers\<close>

lemma strip_prefix_Some: "strip_prefix xs ys = Some zs \<longleftrightarrow> ys = xs @ zs"
  by (induction xs ys rule: strip_prefix.induct) auto





lemma strip_prefix_append [simp]: "strip_prefix xs (xs @ zs) = Some zs"
  by (simp add: strip_prefix_Some)











subsection \<open>The classification of read errors\<close>

text \<open>
  Claim C10. \<^verbatim>\<open>isDisconnect\<close> holds of an error exactly when the error is not nil and its
  message has \<^verbatim>\<open>client disconnected\<close> or \<^verbatim>\<open>; CANCEL\<close> somewhere in it. Every other read
  error that is not nil gets one frame, \<^verbatim>\<open>error decoding command\<close>, and the loop
  ends; an error that is a disconnect gets no frame.
\<close>

theorem isDisconnect_classification:
  "isDisconnect err =
     (\<exists>e. err = Some e
        \<and> ((\<exists>ps ss. Error e = ps @ ''client disconnected'' @ ss)
           \<or> (\<exists>ps ss. Error e = ps @ ''; CANCEL'' @ ss)))
   \<and> (\<not> isDisconnect (Some e) \<longrightarrow>
        subscribe_loop ops ((cmd, Some e) # rest) c =
          ([LogErr e ''failed decoding command'', Write (ErrorFrame ''error decoding command'')],
           Returned, c)
        \<and> frames (fst (subscribe_loop ops ((cmd, Some e) # rest) c)) =
            [ErrorFrame ''error decoding command''])
   \<and> (isDisconnect (Some e) \<longrightarrow>
        frames (fst (subscribe_loop ops ((cmd, Some e) # rest) c)) = []
        \<and> fst (snd (subscribe_loop ops ((cmd, Some e) # rest) c)) = Returned)"
proof -
  have "isDisconnect err =
     (\<exists>e. err = Some e
        \<and> ((\<exists>ps ss. Error e = ps @ ''client disconnected'' @ ss)
           \<or> (\<exists>ps ss. Error e = ps @ ''; CANCEL'' @ ss)))"
    by (cases err) (simp_all add: isDisconnect_def strings_Contains_sublist)
  moreover have "frames (fst (subscribe_loop ops ((cmd, Some e) # rest) c)) = []
        \<and> fst (snd (subscribe_loop ops ((cmd, Some e) # rest) c)) = Returned"
    if "isDisconnect (Some e)"
    by (simp add: subscribe_loop_turn body_disconnect [OF that] split: option.splits)
  ultimately show ?thesis
    by (simp add: subscribe_loop_turn body_decode_error)
qed

theorem isDisconnect_classification_witness:
  "isDisconnect (Some gone_error) \<and> isDisconnect (Some cancel_error)
   \<and> \<not> isDisconnect (Some type_error) \<and> \<not> isDisconnect None
   \<and> \<not> isDisconnect (Some (plainError ''EOF''))
   \<and> subscribe_loop queue_consumer [([], Some (plainError ''EOF'')), (CmdInit, None)] [''m''] =
       ([LogErr (plainError ''EOF'') ''failed decoding command'',
         Write (ErrorFrame ''error decoding command'')], Returned, [''m''])
   \<and> frames (fst (subscribe_loop queue_consumer [([], Some cancel_error), (CmdInit, None)] [''m''])) = []"
proof -
  have n: "\<not> isDisconnect (Some (plainError ''EOF''))"
    by (simp add: isDisconnect_def)
  from isDisconnect_classification [of "Some cancel_error" "plainError ''EOF''" queue_consumer "[]"
      "[(CmdInit, None)]" "[''m'']"]
    isDisconnect_classification [of None cancel_error queue_consumer "[]" "[(CmdInit, None)]" "[''m'']"]
    n gone_error_disconnect cancel_error_disconnect type_error_no_disconnect
  show ?thesis by simp
qed

end
